theory Spec2Isabelle
  imports Complex_Main
begin

section \<open>Name Filter (filter.go)\<close>

text \<open>
  Go strings are byte sequences; they are modelled as \<open>string\<close> (a list of \<open>char\<close>).
  \<open>countPrefix\<close> is the index loop of the source: \<open>i\<close> runs from 0 and stops at the
  first byte different from \<open>ch\<close> or at the end of the name.
\<close>

function countPrefix_loop :: "string \<Rightarrow> char \<Rightarrow> nat \<Rightarrow> nat" where
  "countPrefix_loop name ch i =
     (if i < length name
      then (if name ! i \<noteq> ch then i else countPrefix_loop name ch (i + 1))
      else i)"
  by pat_completeness auto
termination
  by (relation "measure (\<lambda>(name, ch, i). length name - i)") auto

declare countPrefix_loop.simps [simp del]

definition countPrefix :: "string \<Rightarrow> char \<Rightarrow> nat" where
  "countPrefix name ch = countPrefix_loop name ch 0"

text \<open>
  \<open>sets.String\<close> is a set of strings. The loop of \<open>NewFilter\<close> threads the two sets
  \<open>include\<close> and \<open>exclude\<close>; \<open>name[count:]\<close> is \<open>drop count name\<close> (\<open>count\<close> never
  exceeds the length of the name, so the slice expression cannot panic).
\<close>

fun NewFilter_loop :: "string list \<Rightarrow> string set \<Rightarrow> string set \<Rightarrow> string set \<times> string set" where
  "NewFilter_loop [] incl excl = (incl, excl)"
| "NewFilter_loop (name # names) incl excl =
     (let count = countPrefix name (CHR ''!'');
          name' = drop count name
      in if count mod 2 = 0
         then NewFilter_loop names (insert name' incl) excl
         else NewFilter_loop names incl (insert name' excl))"

text \<open>The closure returned by \<open>NewFilter\<close>, over the two sets built by the loop.\<close>

definition matches :: "string set \<Rightarrow> string set \<Rightarrow> string \<Rightarrow> bool" where
  "matches incl excl name =
     (if incl \<noteq> {} \<and> name \<notin> incl then False
      else if excl \<noteq> {} \<and> name \<in> excl then False
      else True)"

definition NewFilter :: "string list \<Rightarrow> string \<Rightarrow> bool" where
  "NewFilter names =
     (case NewFilter_loop names {} {} of (incl, excl) \<Rightarrow> matches incl excl)"

text \<open>
  The include and exclude sets as the specification words them: count the leading
  negation markers of each pattern and strip them; an even count sends the stripped
  name to the include set, an odd count to the exclude set.
\<close>

definition leadingMarkers :: "string \<Rightarrow> nat" where
  "leadingMarkers p = length (takeWhile (\<lambda>c. c = CHR ''!'') p)"

definition stripMarkers :: "string \<Rightarrow> string" where
  "stripMarkers p = dropWhile (\<lambda>c. c = CHR ''!'') p"

definition spec_include :: "string list \<Rightarrow> string set" where
  "spec_include names = stripMarkers ` Set.filter (\<lambda>p. even (leadingMarkers p)) (set names)"

definition spec_exclude :: "string list \<Rightarrow> string set" where
  "spec_exclude names = stripMarkers ` Set.filter (\<lambda>p. odd (leadingMarkers p)) (set names)"

section \<open>Objects and keys (main.go)\<close>

text \<open>
  An \<open>unstructured.Unstructured\<close> document is seen by the program only through the four
  accessors \<open>GetNamespace\<close>, \<open>GetName\<close>, \<open>GetAPIVersion\<close>, \<open>GetKind\<close> (each returns the
  empty string when the document has no such field) and as a whole, when it is handed to
  the diff library. The record holds the four accessor values and, in \<open>Fields\<close>, the
  remaining content of the document as (path, value) pairs.
\<close>

record unstructured =
  GetNamespace :: string
  GetName :: string
  GetAPIVersion :: string
  GetKind :: string
  Fields :: "(string \<times> string) list"

text \<open>\<open>emptyUnstructured\<close>: the document with the empty map as its content.\<close>

definition emptyUnstructured :: unstructured where
  "emptyUnstructured =
     \<lparr>GetNamespace = [], GetName = [], GetAPIVersion = [], GetKind = [], Fields = []\<rparr>"

text \<open>\<open>DeepCopy\<close> yields an equal, unshared value; values are not shared in HOL.\<close>

definition DeepCopy :: "unstructured \<Rightarrow> unstructured" where
  "DeepCopy obj = obj"

text \<open>
  \<open>strings.ToLower\<close>: a string of ASCII bytes only has its bytes \<open>A\<close>..\<open>Z\<close> moved to
  \<open>a\<close>..\<open>z\<close>; for any other string the standard library maps \<open>unicode.ToLower\<close> over
  its runes, which is taken as the parameter \<open>unicodeLower\<close>.
\<close>

definition asciiLower :: "char \<Rightarrow> char" where
  "asciiLower c =
     (if 65 \<le> (of_char c :: nat) \<and> (of_char c :: nat) \<le> 90
      then char_of ((of_char c :: nat) + 32) else c)"

definition ToLower :: "(string \<Rightarrow> string) \<Rightarrow> string \<Rightarrow> string" where
  "ToLower unicodeLower s =
     (if list_all (\<lambda>c. (of_char c :: nat) < 128) s then map asciiLower s else unicodeLower s)"

text \<open>A \<open>strings.Builder\<close> is the text written so far.\<close>

definition WriteString :: "string \<Rightarrow> string \<Rightarrow> string" where
  "WriteString buf s = buf @ s"

definition WriteByte :: "string \<Rightarrow> char \<Rightarrow> string" where
  "WriteByte buf c = buf @ [c]"

definition getKey :: "(string \<Rightarrow> string) \<Rightarrow> unstructured \<Rightarrow> string" where
  "getKey unicodeLower o' =
     (let buf = [];
          ns = GetNamespace o';
          buf = (if length ns \<noteq> 0 then WriteByte (WriteString buf ns) (CHR ''/'') else buf);
          buf = WriteString buf (GetName o');
          buf = WriteByte buf (CHR '' '');
          api = GetAPIVersion o';
          buf = (if length api \<noteq> 0 then WriteByte (WriteString buf api) (CHR ''/'') else buf);
          buf = WriteString buf (ToLower unicodeLower (GetKind o'))
      in buf)"

section \<open>Processing one watch event (main.go)\<close>

text \<open>
  \<open>watch.EventType\<close> is a string; the constants are those of the \<open>watch\<close> package.
  An event carries a \<open>runtime.Object\<close>: an unstructured document, or something else
  (a \<open>Status\<close>, \<open>nil\<close>), on which the type assertion of \<open>processEvent\<close> panics.
  Calling a method of a nil \<open>watch.Interface\<close> panics too.
\<close>

definition watch_Added :: string where "watch_Added = ''ADDED''"
definition watch_Modified :: string where "watch_Modified = ''MODIFIED''"
definition watch_Deleted :: string where "watch_Deleted = ''DELETED''"
definition watch_Bookmark :: string where "watch_Bookmark = ''BOOKMARK''"
definition watch_Error :: string where "watch_Error = ''ERROR''"

datatype runtime_Object = Unstructured unstructured | OtherObject

record watch_Event =
  Type :: string
  Object :: runtime_Object

record Event =
  Timestamp :: int
  Name :: string
  Data :: string

datatype panic = TypeAssertionPanic | NilPointerPanic

text \<open>
  What \<open>processEvent\<close> reads besides its arguments: the package variable
  \<open>namespaceFilter\<close>, the flag \<open>colorize\<close>, and the diff library, which stays a
  parameter: \<open>compareObjects old new\<close> is \<open>gojsondiff.New().CompareObjects\<close> on the two
  documents, \<open>diffModified\<close> is \<open>diff.Modified()\<close>, and \<open>formatDiff coloring left diff\<close> is
  \<open>NewAsciiFormatter(left, {Coloring: coloring}).Format(diff)\<close>, returning the text or
  an error (\<open>Inl\<close>). The clock \<open>time.Now()\<close> is the argument \<open>now\<close>
  (nanoseconds since the epoch).
\<close>

record 'd env =
  namespaceFilter :: "string \<Rightarrow> bool"
  colorize :: bool
  compareObjects :: "unstructured \<Rightarrow> unstructured \<Rightarrow> 'd"
  diffModified :: "'d \<Rightarrow> bool"
  formatDiff :: "bool \<Rightarrow> unstructured \<Rightarrow> 'd \<Rightarrow> string + string"
  unicodeLower :: "string \<Rightarrow> string"

type_synonym cache = "string \<rightharpoonup> unstructured"

text \<open>
  Lines 103 to 115 of \<open>processEvent\<close>: compare \<open>old\<close> and \<open>new\<close>, return no event when the
  diff is not modified or cannot be formatted (the failure is logged), and the event
  otherwise. The result is the event, if any, and the lines logged with \<open>klog.Error\<close>.
\<close>

definition processEvent_diff ::
  "'d env \<Rightarrow> int \<Rightarrow> string \<Rightarrow> unstructured \<Rightarrow> unstructured \<Rightarrow> Event option \<times> string list" where
  "processEvent_diff env now key old new =
     (let diff = compareObjects env old new
      in if \<not> diffModified env diff then (None, [])
         else case formatDiff env (colorize env) old diff of
                Inl err \<Rightarrow> (None, [''error formatting diff: '' @ err])
              | Inr text \<Rightarrow> (Some \<lparr>Timestamp = now, Name = key, Data = text\<rparr>, []))"

text \<open>
  \<open>processEvent\<close> returns the event to send (\<open>None\<close> for \<open>nil\<close>), the cache after the
  call and the lines logged, or panics.
\<close>

definition processEvent ::
  "'d env \<Rightarrow> int \<Rightarrow> watch_Event \<Rightarrow> cache \<Rightarrow> panic + (Event option \<times> cache \<times> string list)" where
  "processEvent env now event cache =
     (if Type event \<noteq> watch_Added \<and> Type event \<noteq> watch_Modified
         \<and> Type event \<noteq> watch_Deleted \<and> Type event \<noteq> watch_Bookmark
      then Inr (None, cache, [])
      else case Object event of
        OtherObject \<Rightarrow> Inl TypeAssertionPanic
      | Unstructured obj \<Rightarrow>
          (let new = DeepCopy obj
           in if \<not> namespaceFilter env (GetNamespace new) then Inr (None, cache, [])
              else
                let key = getKey (unicodeLower env) new;
                    old = (case cache key of None \<Rightarrow> emptyUnstructured | Some v \<Rightarrow> v);
                    (old, new, cache) =
                      (if Type event = watch_Deleted
                       then (new, emptyUnstructured, cache(key := None))
                       else (old, new, cache(key \<mapsto> new)));
                    (e, logged) = processEvent_diff env now key old new
                in Inr (e, cache, logged)))"

section \<open>The watch loop of one resource type (main.go)\<close>

text \<open>
  \<open>dc.Resource(gvr).Watch\<close> returns a stream or an API error; \<open>errors.IsNotFound\<close> and
  \<open>errors.IsMethodNotSupported\<close> classify the error. The poller of the \<open>wait\<close> package
  returns its own sentinel \<open>wait.ErrWaitTimeout\<close> or the error of the condition.
\<close>

datatype watch_error = NotFound | MethodNotSupported | OtherError string

datatype poll_error = ErrWaitTimeout | ConditionError watch_error

definition IsNotFound :: "watch_error \<Rightarrow> bool" where
  "IsNotFound err = (err = NotFound)"

definition IsMethodNotSupported :: "poll_error \<Rightarrow> bool" where
  "IsMethodNotSupported err = (err = ConditionError MethodNotSupported)"

text \<open>
  An open stream, as one call of \<open>processEvents\<close> sees it: the events it receives, each
  with the clock reading when it is processed, and how the call ends: the result channel
  is closed, \<open>stopCh\<close> is taken by the select, or neither happens (the call blocks).
\<close>

datatype stream_end = ChannelClosed | StopObserved | Blocked

record stream =
  received :: "(int \<times> watch_Event) list"
  ending :: stream_end

text \<open>
  One opportunity of the poller to call the condition: whether \<open>stopCh\<close> is seen closed
  at the select that precedes it, and what \<open>Watch\<close> returns when it is called.
\<close>

record tick =
  stopClosed :: bool
  watchReturns :: "watch_error + stream"

datatype log_line = FormatError string | WatchError string poll_error

record wstate =
  ws_cache :: cache
  ws_out :: "Event list"
  ws_log :: "log_line list"

text \<open>
  The condition closure of \<open>watchResource\<close>, applied to the result of \<open>Watch\<close>: the
  value assigned to \<open>w\<close>, and the pair \<open>(done, err)\<close> it returns.
\<close>

definition condition :: "watch_error + stream \<Rightarrow> stream option \<times> bool \<times> watch_error option" where
  "condition r =
     (case r of
        Inl err \<Rightarrow> if IsNotFound err then (None, False, None) else (None, False, Some err)
      | Inr w \<Rightarrow> (Some w, True, None))"

text \<open>
  \<open>wait.PollImmediateUntil\<close> with this condition: the condition runs at once, then at
  every tick of the interval (\<open>time.Second\<close>) until it is done or fails; a closed
  \<open>stopCh\<close> seen at a later select ends the poll with \<open>ErrWaitTimeout\<close>. The result is the
  error (\<open>None\<close> for \<open>nil\<close>), the last value of \<open>w\<close> and the ticks not consumed; it is
  \<open>None\<close> when the ticks run out while the poll is still waiting.
\<close>

fun PollImmediateUntil ::
  "bool \<Rightarrow> tick list \<Rightarrow> stream option \<Rightarrow> (poll_error option \<times> stream option \<times> tick list) option" where
  "PollImmediateUntil immediate [] w = None"
| "PollImmediateUntil immediate (t # ts) w =
     (if \<not> immediate \<and> stopClosed t then Some (Some ErrWaitTimeout, w, ts)
      else case condition (watchReturns t) of
             (w', _, Some err) \<Rightarrow> Some (Some (ConditionError err), w', ts)
           | (w', True, None) \<Rightarrow> Some (None, w', ts)
           | (w', False, None) \<Rightarrow> PollImmediateUntil False ts w')"

text \<open>
  \<open>processEvents\<close>: every received event goes through \<open>processEvent\<close>; a non-nil result is
  sent on \<open>out\<close> (the events sent are appended to \<open>ws_out\<close>; the capacity of the channel is
  not modelled). The result is \<open>Some True\<close> when the channel was closed, \<open>Some False\<close>
  when \<open>stopCh\<close> was taken, \<open>None\<close> when the call blocks.
\<close>

fun processEvents_loop :: "'d env \<Rightarrow> (int \<times> watch_Event) list \<Rightarrow> wstate \<Rightarrow> panic + wstate" where
  "processEvents_loop env [] st = Inr st"
| "processEvents_loop env ((now, event) # rest) st =
     (case processEvent env now event (ws_cache st) of
        Inl p \<Rightarrow> Inl p
      | Inr (e, cache', logged) \<Rightarrow>
          processEvents_loop env rest
            \<lparr>ws_cache = cache',
             ws_out = (case e of None \<Rightarrow> ws_out st | Some ev \<Rightarrow> ws_out st @ [ev]),
             ws_log = ws_log st @ map FormatError logged\<rparr>)"

definition processEvents :: "'d env \<Rightarrow> stream \<Rightarrow> wstate \<Rightarrow> panic + (bool option \<times> wstate)" where
  "processEvents env w st =
     (case processEvents_loop env (received w) st of
        Inl p \<Rightarrow> Inl p
      | Inr st' \<Rightarrow>
          Inr (case ending w of
                 ChannelClosed \<Rightarrow> Some True
               | StopObserved \<Rightarrow> Some False
               | Blocked \<Rightarrow> None, st'))"

lemma PollImmediateUntil_consumes:
  "PollImmediateUntil immediate ticks w = Some (err, w', rest) \<Longrightarrow> length rest < length ticks"
proof (induction ticks arbitrary: immediate w)
  case Nil
  then show ?case by simp
next
  case (Cons t ts)
  then show ?case
    by (fastforce split: if_splits prod.splits option.splits bool.splits)
qed

text \<open>
  \<open>watchResource\<close> on a finite run of ticks: it has \<open>Returned\<close>, or it is still
  \<open>Running\<close> (polling, or blocked on the stream) when the ticks end. An error of the poll
  other than \<open>ErrWaitTimeout\<close> and "method not supported" is logged with \<open>klog.Errorf\<close>.
\<close>

datatype outcome = Returned | Running

function watchResource ::
  "'d env \<Rightarrow> string \<Rightarrow> tick list \<Rightarrow> wstate \<Rightarrow> panic + (outcome \<times> wstate)" where
  "watchResource env gvr ticks st =
     (case PollImmediateUntil True ticks None of
        None \<Rightarrow> Inr (Running, st)
      | Some (Some err, w, rest) \<Rightarrow>
          Inr (Returned,
               if err \<noteq> ErrWaitTimeout \<and> \<not> IsMethodNotSupported err
               then st\<lparr>ws_log := ws_log st @ [WatchError gvr err]\<rparr>
               else st)
      | Some (None, None, rest) \<Rightarrow> Inl NilPointerPanic
      | Some (None, Some w, rest) \<Rightarrow>
          (case processEvents env w st of
             Inl p \<Rightarrow> Inl p
           | Inr (None, st') \<Rightarrow> Inr (Running, st')
           | Inr (Some ok, st') \<Rightarrow>
               if \<not> ok then Inr (Returned, st') else watchResource env gvr rest st'))"
  by pat_completeness auto
termination
  by (relation "measure (\<lambda>(env, gvr, ticks, st). length ticks)")
    (auto dest: PollImmediateUntil_consumes)

declare watchResource.simps [simp del]

section \<open>Formatting and printing events (events.go, main.go)\<close>

text \<open>
  \<open>float64\<close> values are modelled by the real numbers they denote. Rounding to the
  nearest \<open>float64\<close> is the parameter \<open>round64\<close>: the conversion \<open>float64(n)\<close> of an
  integer is \<open>round64\<close> of \<open>n\<close>, and a quotient is \<open>round64\<close> of the exact quotient.
  \<open>quoteUnicode\<close> is \<open>strconv.Quote\<close> on strings with a byte from 0x80 on, and
  \<open>time_Format ns\<close> is the timestamp in the layout \<open>2006-01-02 15:04:05.000\<close>.
\<close>

record fmtlib =
  round64 :: "real \<Rightarrow> real"
  quoteUnicode :: "string \<Rightarrow> string"
  time_Format :: "int \<Rightarrow> string"











definition newline :: string where
  "newline = [CHR 0x0A]"

text \<open>
  An \<open>EventFormatter\<close>: \<open>Format\<close> takes and returns the state of the receiver, whose
  initial value is \<open>receiver\<close>.
\<close>

record 's EventFormatter =
  Preamble :: string
  Epilogue :: string
  Format :: "'s \<Rightarrow> Event \<Rightarrow> string \<times> 's"
  receiver :: 's

definition DefaultFormatter :: "fmtlib \<Rightarrow> unit EventFormatter" where
  "DefaultFormatter lib =
     \<lparr>Preamble = [],
      Epilogue = [],
      Format = (\<lambda>f event.
        (''['' @ time_Format lib (Timestamp event) @ ''] '' @ Name event @ newline
           @ Data event @ newline, f)),
      receiver = ()\<rparr>"




text \<open>
  The output channel is the list of the events it buffers, oldest first; standard output
  is the list of the texts printed, one for each call of \<open>fmt.Print\<close>.

  \<open>flushEvents\<close>: the select has a default case, so it receives while the channel holds
  an event and returns when it holds none.
\<close>

fun flushEvents ::
  "Event list \<Rightarrow> ('s \<Rightarrow> Event \<Rightarrow> string \<times> 's) \<Rightarrow> 's \<times> string list
     \<Rightarrow> Event list \<times> 's \<times> string list" where
  "flushEvents [] format (f, stdout) = ([], f, stdout)"
| "flushEvents (e # out) format (f, stdout) =
     (case format f e of (text, f') \<Rightarrow> flushEvents out format (f', stdout @ [text]))"

text \<open>
  \<open>printEvents\<close> once \<open>stopCh\<close> is closed, with no sender left: while the channel holds an
  event both cases of the select are ready and either may be taken; \<open>k\<close> is the number of
  times the receive case is taken before the stop case is. With the channel empty only
  the stop case is ready.
\<close>

fun printEvents ::
  "nat \<Rightarrow> Event list \<Rightarrow> ('s \<Rightarrow> Event \<Rightarrow> string \<times> 's) \<Rightarrow> 's \<times> string list
     \<Rightarrow> Event list \<times> 's \<times> string list" where
  "printEvents k [] format (f, stdout) = ([], f, stdout)"
| "printEvents 0 (e # out) format (f, stdout) = (e # out, f, stdout)"
| "printEvents (Suc k) (e # out) format (f, stdout) =
     (case format f e of (text, f') \<Rightarrow> printEvents k out format (f', stdout @ [text]))"


text \<open>The texts of a list of events, formatted in order by one receiver.\<close>

fun formatAll :: "('s \<Rightarrow> Event \<Rightarrow> string \<times> 's) \<Rightarrow> 's \<Rightarrow> Event list \<Rightarrow> string list" where
  "formatAll format f [] = []"
| "formatAll format f (e # es) = (case format f e of (text, f') \<Rightarrow> text # formatAll format f' es)"

fun receiverAfter :: "('s \<Rightarrow> Event \<Rightarrow> string \<times> 's) \<Rightarrow> 's \<Rightarrow> Event list \<Rightarrow> 's" where
  "receiverAfter format f [] = f"
| "receiverAfter format f (e # es) = (case format f e of (text, f') \<Rightarrow> receiverAfter format f' es)"

section \<open>Concrete inputs\<close>

text \<open>
  The diff library is a parameter of the model. To run the model on concrete inputs, the
  following environment compares two documents by equality and renders a diff as the
  fields of the old document, an arrow, and the fields of the new one; its namespace
  filter is the one built from no pattern. \<open>failingFormatEnv\<close> is the same environment
  with a formatter that always fails.
\<close>

definition showFields :: "unstructured \<Rightarrow> string" where
  "showFields obj = concat (map (\<lambda>(k, v). k @ ''='' @ v @ '';'') (Fields obj))"

definition exampleEnv :: "(unstructured \<times> unstructured) env" where
  "exampleEnv =
     \<lparr>namespaceFilter = NewFilter [],
      colorize = True,
      compareObjects = Pair,
      diffModified = (\<lambda>(old, new). old \<noteq> new),
      formatDiff = (\<lambda>coloring left (old, new). Inr (showFields old @ '' -> '' @ showFields new)),
      unicodeLower = id\<rparr>"

definition failingFormatEnv :: "(unstructured \<times> unstructured) env" where
  "failingFormatEnv = exampleEnv\<lparr>formatDiff := (\<lambda>coloring left diff. Inl ''cannot format'')\<rparr>"

text \<open>
  The object of the end-to-end scenario, \<open>{ns: a, name: x, kind: Widget}\<close> with
  \<open>spec.replicas\<close> as given, and a bookmark object, which carries a resource version only.
\<close>

definition widget :: "string \<Rightarrow> unstructured" where
  "widget replicas =
     \<lparr>GetNamespace = ''a'', GetName = ''x'', GetAPIVersion = [], GetKind = ''Widget'',
      Fields = [(''spec.replicas'', replicas)]\<rparr>"

definition bookmark :: unstructured where
  "bookmark =
     \<lparr>GetNamespace = [], GetName = [], GetAPIVersion = ''v1'', GetKind = ''Widget'',
      Fields = [(''metadata.resourceVersion'', ''42'')]\<rparr>"

definition addWidget1 :: watch_Event where
  "addWidget1 = \<lparr>Type = watch_Added, Object = Unstructured (widget ''1'')\<rparr>"

definition deleteWidget2 :: watch_Event where
  "deleteWidget2 = \<lparr>Type = watch_Deleted, Object = Unstructured (widget ''2'')\<rparr>"

text \<open>
  Ticks of the poller at which \<open>stopCh\<close> is open and \<open>Watch\<close> fails: with "not found",
  with "method not supported", and with another error.
\<close>

definition notFoundTick :: tick where
  "notFoundTick = \<lparr>stopClosed = False, watchReturns = Inl NotFound\<rparr>"

definition unsupportedTick :: tick where
  "unsupportedTick = \<lparr>stopClosed = False, watchReturns = Inl MethodNotSupported\<rparr>"

definition forbiddenTick :: tick where
  "forbiddenTick = \<lparr>stopClosed = False, watchReturns = Inl (OtherError ''forbidden'')\<rparr>"

definition emptyState :: wstate where
  "emptyState = \<lparr>ws_cache = Map.empty, ws_out = [], ws_log = []\<rparr>"

text \<open>
  A library in which rounding to \<open>float64\<close> is exact (it is on the timestamp below and
  on its quotient by 1000), and two events.
\<close>

definition exampleLib :: fmtlib where
  "exampleLib =
     \<lparr>round64 = (\<lambda>x. x),
      quoteUnicode = (\<lambda>s. s),
      time_Format = (\<lambda>ns. ''2019-11-01 00:00:00.000'')\<rparr>"

definition event1 :: Event where
  "event1 = \<lparr>Timestamp = 1572566400000000000, Name = ''a/x widget'', Data = ''one''\<rparr>"

definition event2 :: Event where
  "event2 = \<lparr>Timestamp = 1572566400000000000, Name = ''a/x widget'', Data = ''two''\<rparr>"

section \<open>Properties of the Name Filter\<close>

subsection \<open>The loop counts the leading markers\<close>

lemma countPrefix_loop_takeWhile:
  "i \<le> length name \<Longrightarrow>
   countPrefix_loop name ch i = i + length (takeWhile (\<lambda>c. c = ch) (drop i name))"
proof (induction name ch i rule: countPrefix_loop.induct)
  case (1 name ch i)
  show ?case
  proof (cases "i < length name")
    case False
    with "1.prems" show ?thesis
      by (subst countPrefix_loop.simps) simp
  next
    case True
    then have d: "drop i name = name ! i # drop (Suc i) name"
      by (simp add: Cons_nth_drop_Suc)
    show ?thesis
    proof (cases "name ! i = ch")
      case False
      with True d show ?thesis
        by (simp add: countPrefix_loop.simps [of name ch i])
    next
      case eq: True
      from True have "i + 1 \<le> length name" by simp
      with "1.IH" True eq
      have "countPrefix_loop name ch (i + 1)
              = (i + 1) + length (takeWhile (\<lambda>c. c = ch) (drop (i + 1) name))"
        by simp
      with True eq d show ?thesis
        by (simp add: countPrefix_loop.simps [of name ch i])
    qed
  qed
qed

lemma countPrefix_leadingMarkers: "countPrefix p (CHR ''!'') = leadingMarkers p"
  by (simp add: countPrefix_def leadingMarkers_def countPrefix_loop_takeWhile)

lemma drop_leadingMarkers: "drop (leadingMarkers p) p = stripMarkers p"
  by (simp add: leadingMarkers_def stripMarkers_def dropWhile_eq_drop)

lemma NewFilter_loop_sets:
  "NewFilter_loop names incl excl = (incl \<union> spec_include names, excl \<union> spec_exclude names)"
proof (induction names arbitrary: incl excl)
  case Nil
  show ?case by (simp add: spec_include_def spec_exclude_def)
next
  case (Cons p ps)
  show ?case
  proof (cases "even (leadingMarkers p)")
    case True
    then show ?thesis
      by (auto simp: Cons.IH Let_def countPrefix_leadingMarkers drop_leadingMarkers
          spec_include_def spec_exclude_def)
  next
    case False
    then show ?thesis
      by (auto simp: Cons.IH Let_def countPrefix_leadingMarkers drop_leadingMarkers
          spec_include_def spec_exclude_def)
  qed
qed

lemma spec_include_simps:
  "spec_include [] = {}"
  "spec_include (p # ps) =
     (if even (leadingMarkers p) then insert (stripMarkers p) (spec_include ps)
      else spec_include ps)"
  by (auto simp add: spec_include_def)

lemma spec_exclude_simps:
  "spec_exclude [] = {}"
  "spec_exclude (p # ps) =
     (if odd (leadingMarkers p) then insert (stripMarkers p) (spec_exclude ps)
      else spec_exclude ps)"
  by (auto simp add: spec_exclude_def)

lemma NewFilter_Nil: "NewFilter [] name"
  by (simp add: NewFilter_def matches_def)

text \<open>
  Claim C2. For every pattern list, the sets built by \<open>NewFilter\<close> are the include and
  exclude sets of the specification: each pattern is stripped of its leading \<open>!\<close>
  markers and goes to the include set when their number is even, to the exclude set
  when it is odd. The filter accepts a name iff the include set is empty or holds the
  name, and the exclude set does not hold it. The filter built from no pattern accepts
  every name.
\<close>

theorem NewFilter_matches:
  "NewFilter_loop names {} {} = (spec_include names, spec_exclude names)
   \<and> NewFilter names name
       = ((spec_include names = {} \<or> name \<in> spec_include names) \<and> name \<notin> spec_exclude names)
   \<and> NewFilter [] name"
  by (auto simp add: NewFilter_def NewFilter_loop_sets matches_def spec_include_def
      spec_exclude_def)

theorem NewFilter_matches_witness:
  "NewFilter [''apps/v1'', ''!apps/v1/deployments'', ''!!batch/v1''] ''batch/v1''
   \<and> \<not> NewFilter [''apps/v1'', ''!apps/v1/deployments'', ''!!batch/v1''] ''apps/v1/deployments''
   \<and> \<not> NewFilter [''apps/v1'', ''!apps/v1/deployments'', ''!!batch/v1''] ''v1''
   \<and> NewFilter [''!apps/v1/deployments''] ''apps/v1/statefulsets''
   \<and> \<not> NewFilter [''!apps/v1/deployments''] ''apps/v1/deployments''"
  using NewFilter_matches [of "[''apps/v1'', ''!apps/v1/deployments'', ''!!batch/v1'']" "''batch/v1''"]
    NewFilter_matches [of "[''apps/v1'', ''!apps/v1/deployments'', ''!!batch/v1'']" "''apps/v1/deployments''"]
    NewFilter_matches [of "[''apps/v1'', ''!apps/v1/deployments'', ''!!batch/v1'']" "''v1''"]
    NewFilter_matches [of "[''!apps/v1/deployments'']" "''apps/v1/statefulsets''"]
    NewFilter_matches [of "[''!apps/v1/deployments'']" "''apps/v1/deployments''"]
  by (simp add: spec_include_simps spec_exclude_simps leadingMarkers_def stripMarkers_def)

text \<open>
  Claim C10. When the pattern list contains the empty string, the empty string is in
  the include set built by \<open>NewFilter\<close>, which is therefore not empty, and the filter
  rejects every name that is not in the include set. The filter built from the single
  pattern \<open>""\<close> accepts the empty name and no other.
\<close>

theorem NewFilter_empty_pattern:
  "([] \<in> set names \<longrightarrow>
      [] \<in> fst (NewFilter_loop names {} {}) \<and> fst (NewFilter_loop names {} {}) \<noteq> {}
      \<and> (name \<notin> fst (NewFilter_loop names {} {}) \<longrightarrow> \<not> NewFilter names name))
   \<and> NewFilter [[]] name = (name = [])"
proof -
  have "[] \<in> spec_include names" if "[] \<in> set names"
  proof -
    have "stripMarkers [] = []" "even (leadingMarkers [])"
      by (simp_all add: stripMarkers_def leadingMarkers_def)
    with that show ?thesis
      unfolding spec_include_def by force
  qed
  moreover have "NewFilter [[]] name = (name = [])"
    by (auto simp add: NewFilter_def matches_def Let_def countPrefix_def
        countPrefix_loop.simps [of "[]"])
  ultimately show ?thesis
    by (auto simp add: NewFilter_def NewFilter_loop_sets matches_def)
qed

theorem NewFilter_empty_pattern_witness:
  "[] \<in> set [''pods'', []] \<and> ''nodes'' \<notin> fst (NewFilter_loop [''pods'', []] {} {})
   \<and> \<not> NewFilter [''pods'', []] ''nodes'' \<and> \<not> NewFilter [[]] ''nodes'' \<and> NewFilter [[]] []"
  using NewFilter_empty_pattern [of "[''pods'', []]" "''nodes''"]
    NewFilter_empty_pattern [of "[]" "[]"]
  by (simp add: NewFilter_loop_sets spec_include_simps leadingMarkers_def stripMarkers_def)

section \<open>Properties of the object key\<close>

lemma ToLower_Widget: "ToLower ul ''Widget'' = ''widget''"
  by code_simp

lemma getKey_eq:
  "getKey ul obj =
     (if GetNamespace obj = [] then [] else GetNamespace obj @ ''/'') @ GetName obj @ '' ''
       @ (if GetAPIVersion obj = [] then [] else GetAPIVersion obj @ ''/'')
       @ ToLower ul (GetKind obj)"
  by (simp add: getKey_def Let_def WriteString_def WriteByte_def)

lemma getKey_widget: "getKey ul (widget r) = ''a/x widget''"
  by (simp add: getKey_eq widget_def ToLower_Widget)

lemma getKey_bookmark: "getKey ul bookmark = '' v1/widget''"
  by (simp add: getKey_eq bookmark_def ToLower_Widget)

lemma upper_letters: "map char_of [65..<91 :: nat] = ''ABCDEFGHIJKLMNOPQRSTUVWXYZ''"
  by code_simp

lemma upper_range:
  "list_all (\<lambda>c. 65 \<le> (of_char c :: nat) \<and> (of_char c :: nat) \<le> 90)
     ''ABCDEFGHIJKLMNOPQRSTUVWXYZ''"
  by simp

lemma asciiLower_letters:
  "list_all (\<lambda>c. asciiLower c =
       (case map_of (zip ''ABCDEFGHIJKLMNOPQRSTUVWXYZ'' ''abcdefghijklmnopqrstuvwxyz'') c of
          None \<Rightarrow> c | Some l \<Rightarrow> l)) ''ABCDEFGHIJKLMNOPQRSTUVWXYZ''"
  by code_simp

lemma asciiLower_table:
  "asciiLower c =
     (case map_of (zip ''ABCDEFGHIJKLMNOPQRSTUVWXYZ'' ''abcdefghijklmnopqrstuvwxyz'') c of
        None \<Rightarrow> c | Some l \<Rightarrow> l)"
proof (cases "c \<in> set ''ABCDEFGHIJKLMNOPQRSTUVWXYZ''")
  case True
  with asciiLower_letters show ?thesis
    unfolding list_all_iff by blast
next
  case False
  have "\<not> (65 \<le> (of_char c :: nat) \<and> (of_char c :: nat) \<le> 90)"
  proof
    assume r: "65 \<le> (of_char c :: nat) \<and> (of_char c :: nat) \<le> 90"
    then have "(of_char c :: nat) \<in> {65..<91}" by auto
    then have "(of_char c :: nat) \<in> set [65..<91]" by (simp only: set_upt)
    then have "char_of (of_char c :: nat) \<in> set (map char_of [65..<91 :: nat])"
      by (simp only: set_map) (rule imageI)
    then have "c \<in> set ''ABCDEFGHIJKLMNOPQRSTUVWXYZ''"
      by (simp only: upper_letters char_of_char)
    with False show False by contradiction
  qed
  then have "asciiLower c = c" unfolding asciiLower_def by (simp only: if_False)
  moreover from False
  have "map_of (zip ''ABCDEFGHIJKLMNOPQRSTUVWXYZ'' ''abcdefghijklmnopqrstuvwxyz'') c = None"
    by (simp add: map_of_eq_None_iff)
  ultimately show ?thesis by simp
qed

lemma asciiLower_letters_lower:
  "list_all (\<lambda>c. asciiLower c \<notin> set ''ABCDEFGHIJKLMNOPQRSTUVWXYZ'') ''ABCDEFGHIJKLMNOPQRSTUVWXYZ''"
  by code_simp

lemma asciiLower_not_upper: "asciiLower c \<notin> set ''ABCDEFGHIJKLMNOPQRSTUVWXYZ''"
proof (cases "c \<in> set ''ABCDEFGHIJKLMNOPQRSTUVWXYZ''")
  case True
  with asciiLower_letters_lower show ?thesis
    unfolding list_all_iff by blast
next
  case False
  then have "map_of (zip ''ABCDEFGHIJKLMNOPQRSTUVWXYZ'' ''abcdefghijklmnopqrstuvwxyz'') c = None"
    by (simp add: map_of_eq_None_iff)
  then have "asciiLower c = c"
    by (simp only: asciiLower_table option.case)
  with False show ?thesis by simp
qed

text \<open>
  Claim C7. The key of an object is its namespace followed by \<open>/\<close> (nothing when the
  namespace is empty), its name, a space, its apiVersion followed by \<open>/\<close> (nothing when
  the apiVersion is empty), and its kind in lower case: when the kind has ASCII bytes
  only, each of the letters \<open>A\<close> to \<open>Z\<close> is replaced by the letter \<open>a\<close> to \<open>z\<close> at the
  same place of the alphabet and every other byte is kept; otherwise the kind is what
  the Unicode lower-casing \<open>ul\<close> of the standard library makes of it. When \<open>ul\<close> never
  returns a letter \<open>A\<close> to \<open>Z\<close>, as lower-casing does, no key has such a letter in its
  kind. The object with namespace \<open>a\<close>, name \<open>x\<close>, kind \<open>Widget\<close> and no apiVersion has
  the key \<open>a/x widget\<close>.
\<close>

theorem getKey_concatenation:
  "getKey ul obj =
     (if GetNamespace obj = [] then [] else GetNamespace obj @ ''/'') @ GetName obj @ '' ''
       @ (if GetAPIVersion obj = [] then [] else GetAPIVersion obj @ ''/'')
       @ (if list_all (\<lambda>c. (of_char c :: nat) < 128) (GetKind obj)
          then map (\<lambda>c. case map_of (zip ''ABCDEFGHIJKLMNOPQRSTUVWXYZ''
                                       ''abcdefghijklmnopqrstuvwxyz'') c of
                          None \<Rightarrow> c | Some l \<Rightarrow> l) (GetKind obj)
          else ul (GetKind obj))
   \<and> ((\<forall>s. list_all (\<lambda>c. c \<notin> set ''ABCDEFGHIJKLMNOPQRSTUVWXYZ'') (ul s))
        \<longrightarrow> (\<exists>kind. getKey ul obj =
               (if GetNamespace obj = [] then [] else GetNamespace obj @ ''/'') @ GetName obj
                 @ '' '' @ (if GetAPIVersion obj = [] then [] else GetAPIVersion obj @ ''/'')
                 @ kind
               \<and> list_all (\<lambda>c. c \<notin> set ''ABCDEFGHIJKLMNOPQRSTUVWXYZ'') kind))
   \<and> getKey ul \<lparr>GetNamespace = ''a'', GetName = ''x'', GetAPIVersion = [], GetKind = ''Widget'',
                 Fields = fs\<rparr> = ''a/x widget''"
proof -
  have tab: "map asciiLower s
      = map (\<lambda>c. case map_of (zip ''ABCDEFGHIJKLMNOPQRSTUVWXYZ''
                                       ''abcdefghijklmnopqrstuvwxyz'') c of
                          None \<Rightarrow> c | Some l \<Rightarrow> l) s" for s
    by (rule map_cong [OF refl]) (rule asciiLower_table)
  have first: "getKey ul obj =
     (if GetNamespace obj = [] then [] else GetNamespace obj @ ''/'') @ GetName obj @ '' ''
       @ (if GetAPIVersion obj = [] then [] else GetAPIVersion obj @ ''/'')
       @ (if list_all (\<lambda>c. (of_char c :: nat) < 128) (GetKind obj)
          then map (\<lambda>c. case map_of (zip ''ABCDEFGHIJKLMNOPQRSTUVWXYZ''
                                       ''abcdefghijklmnopqrstuvwxyz'') c of
                          None \<Rightarrow> c | Some l \<Rightarrow> l) (GetKind obj)
          else ul (GetKind obj))"
    by (simp only: getKey_eq ToLower_def tab)
  have lower: "list_all (\<lambda>c. c \<notin> set ''ABCDEFGHIJKLMNOPQRSTUVWXYZ'') (ToLower ul (GetKind obj))"
    if "\<forall>s. list_all (\<lambda>c. c \<notin> set ''ABCDEFGHIJKLMNOPQRSTUVWXYZ'') (ul s)"
  proof (cases "list_all (\<lambda>c. (of_char c :: nat) < 128) (GetKind obj)")
    case True
    have "list_all (\<lambda>c. c \<notin> set ''ABCDEFGHIJKLMNOPQRSTUVWXYZ'') (map asciiLower (GetKind obj))"
      unfolding list_all_iff using asciiLower_not_upper by auto
    with True show ?thesis by (simp only: ToLower_def if_True)
  next
    case False
    with that show ?thesis by (simp only: ToLower_def if_False)
  qed
  have second: "(\<forall>s. list_all (\<lambda>c. c \<notin> set ''ABCDEFGHIJKLMNOPQRSTUVWXYZ'') (ul s))
        \<longrightarrow> (\<exists>kind. getKey ul obj =
               (if GetNamespace obj = [] then [] else GetNamespace obj @ ''/'') @ GetName obj
                 @ '' '' @ (if GetAPIVersion obj = [] then [] else GetAPIVersion obj @ ''/'')
                 @ kind
               \<and> list_all (\<lambda>c. c \<notin> set ''ABCDEFGHIJKLMNOPQRSTUVWXYZ'') kind)"
    using lower getKey_eq [of ul obj] by blast
  have third: "getKey ul \<lparr>GetNamespace = ''a'', GetName = ''x'', GetAPIVersion = [],
      GetKind = ''Widget'', Fields = fs\<rparr> = ''a/x widget''"
    by (simp add: getKey_eq ToLower_Widget)
  from first second third show ?thesis by (intro conjI)
qed

theorem getKey_concatenation_witness:
  "(\<forall>s. list_all (\<lambda>c. c \<notin> set ''ABCDEFGHIJKLMNOPQRSTUVWXYZ'') (map asciiLower s))
   \<and> getKey (map asciiLower) \<lparr>GetNamespace = [], GetName = ''cm'', GetAPIVersion = ''v1'',
               GetKind = ''ConfigMap'', Fields = []\<rparr> = ''cm v1/configmap''"
proof -
  have h: "\<forall>s. list_all (\<lambda>c. c \<notin> set ''ABCDEFGHIJKLMNOPQRSTUVWXYZ'') (map asciiLower s)"
    unfolding list_all_iff using asciiLower_not_upper by auto
  from getKey_concatenation [of "map asciiLower"
      "\<lparr>GetNamespace = [], GetName = ''cm'', GetAPIVersion = ''v1'',
               GetKind = ''ConfigMap'', Fields = []\<rparr>" "[]"]
  have "getKey (map asciiLower) \<lparr>GetNamespace = [], GetName = ''cm'', GetAPIVersion = ''v1'',
               GetKind = ''ConfigMap'', Fields = []\<rparr> = ''cm v1/configmap''"
    by simp
  with h show ?thesis by (intro conjI)
qed

section \<open>Properties of event processing\<close>

lemma processEvent_deleted:
  "Type event = watch_Deleted \<Longrightarrow> Object event = Unstructured obj \<Longrightarrow>
   namespaceFilter env (GetNamespace obj) \<Longrightarrow>
   processEvent env now event cache =
     Inr (fst (processEvent_diff env now (getKey (unicodeLower env) obj) obj emptyUnstructured),
          cache(getKey (unicodeLower env) obj := None),
          snd (processEvent_diff env now (getKey (unicodeLower env) obj) obj emptyUnstructured))"
  by (simp add: processEvent_def DeepCopy_def Let_def watch_Deleted_def watch_Added_def
      watch_Modified_def watch_Bookmark_def split: prod.splits)

lemma processEvent_stored:
  "Type event = watch_Added \<or> Type event = watch_Modified \<or> Type event = watch_Bookmark \<Longrightarrow>
   Object event = Unstructured obj \<Longrightarrow>
   namespaceFilter env (GetNamespace obj) \<Longrightarrow>
   processEvent env now event cache =
     Inr (fst (processEvent_diff env now (getKey (unicodeLower env) obj)
                 (case cache (getKey (unicodeLower env) obj) of
                    None \<Rightarrow> emptyUnstructured | Some v \<Rightarrow> v) obj),
          cache(getKey (unicodeLower env) obj \<mapsto> obj),
          snd (processEvent_diff env now (getKey (unicodeLower env) obj)
                 (case cache (getKey (unicodeLower env) obj) of
                    None \<Rightarrow> emptyUnstructured | Some v \<Rightarrow> v) obj))"
  by (auto simp add: processEvent_def DeepCopy_def Let_def watch_Deleted_def watch_Added_def
      watch_Modified_def watch_Bookmark_def split: prod.splits)

lemma processEvent_filtered:
  "Type event = watch_Added \<or> Type event = watch_Modified \<or> Type event = watch_Deleted
     \<or> Type event = watch_Bookmark \<Longrightarrow>
   Object event = Unstructured obj \<Longrightarrow>
   \<not> namespaceFilter env (GetNamespace obj) \<Longrightarrow>
   processEvent env now event cache = Inr (None, cache, [])"
  by (auto simp add: processEvent_def DeepCopy_def)

lemma widget_sel:
  "GetNamespace (widget r) = ''a''" "Fields (widget r) = [(''spec.replicas'', r)]"
  "widget r \<noteq> emptyUnstructured" "(widget r = widget r') = (r = r')"
  by (simp_all add: widget_def emptyUnstructured_def)

lemma bookmark_sel:
  "GetNamespace bookmark = []" "Fields bookmark = [(''metadata.resourceVersion'', ''42'')]"
  "emptyUnstructured \<noteq> bookmark"
  by (simp_all add: bookmark_def emptyUnstructured_def)

lemma empty_sel: "Fields emptyUnstructured = []" "GetNamespace emptyUnstructured = []"
  by (simp_all add: emptyUnstructured_def)

lemma exampleEnv_sel:
  "namespaceFilter exampleEnv ns" "colorize exampleEnv" "unicodeLower exampleEnv = id"
  "compareObjects exampleEnv old new = (old, new)"
  "diffModified exampleEnv (old, new) = (old \<noteq> new)"
  "formatDiff exampleEnv c left (old, new) = Inr (showFields old @ '' -> '' @ showFields new)"
  by (simp_all add: exampleEnv_def NewFilter_Nil)

lemma failingFormatEnv_sel:
  "namespaceFilter failingFormatEnv ns" "unicodeLower failingFormatEnv = id"
  "compareObjects failingFormatEnv old new = (old, new)"
  "diffModified failingFormatEnv (old, new) = (old \<noteq> new)"
  "formatDiff failingFormatEnv c left d = Inl ''cannot format''"
  by (simp_all add: failingFormatEnv_def exampleEnv_def NewFilter_Nil)

lemma diff_widget_empty:
  "processEvent_diff exampleEnv now key (widget r) emptyUnstructured
     = (Some \<lparr>Timestamp = now, Name = key, Data = ''spec.replicas='' @ r @ ''; -> ''\<rparr>, [])"
  by (simp add: processEvent_diff_def exampleEnv_sel showFields_def widget_sel empty_sel)

lemma diff_empty_widget:
  "processEvent_diff exampleEnv now key emptyUnstructured (widget r)
     = (Some \<lparr>Timestamp = now, Name = key, Data = '' -> spec.replicas='' @ r @ '';''\<rparr>, [])"
  using widget_sel(3) [of r]
  by (simp add: processEvent_diff_def exampleEnv_sel showFields_def widget_sel(1,2) empty_sel
      del: widget_sel(3))

text \<open>
  Claim C1, amended. For every delete event whose object passes the namespace filter,
  the diff is computed with old = the object carried by the delete event and new =
  \<open>emptyUnstructured\<close>, and the key is removed from the cache. The state cached under the
  key is looked up but not used.
\<close>

theorem processEvent_delete_operands:
  assumes "Type event = watch_Deleted" and "Object event = Unstructured obj"
    and "namespaceFilter env (GetNamespace obj)"
  shows "processEvent env now event cache =
     Inr (fst (processEvent_diff env now (getKey (unicodeLower env) obj) obj emptyUnstructured),
          cache(getKey (unicodeLower env) obj := None),
          snd (processEvent_diff env now (getKey (unicodeLower env) obj) obj emptyUnstructured))"
  using assms by (rule processEvent_deleted)

theorem processEvent_delete_operands_witness:
  "Type deleteWidget2 = watch_Deleted \<and> Object deleteWidget2 = Unstructured (widget ''2'')
   \<and> namespaceFilter exampleEnv (GetNamespace (widget ''2''))
   \<and> processEvent exampleEnv 7 deleteWidget2 [''a/x widget'' \<mapsto> widget ''1'']
       = Inr (Some \<lparr>Timestamp = 7, Name = ''a/x widget'', Data = ''spec.replicas=2; -> ''\<rparr>,
              Map.empty, [])"
  using processEvent_delete_operands [of deleteWidget2 "widget ''2''" exampleEnv 7
      "[''a/x widget'' \<mapsto> widget ''1'']"]
  by (simp add: deleteWidget2_def exampleEnv_sel getKey_widget diff_widget_empty)

text \<open>
  The claim as first stated fails: with the widget of one replica cached, a delete event
  that carries the widget of two replicas yields the diff of the two-replica widget
  against the empty state, not that of the cached one-replica widget; and with nothing
  cached, it yields an event where the diff of the empty state against itself yields none.
\<close>

theorem processEvent_delete_old_not_cached:
  "processEvent exampleEnv 7 deleteWidget2 [''a/x widget'' \<mapsto> widget ''1'']
     = Inr (Some \<lparr>Timestamp = 7, Name = ''a/x widget'', Data = ''spec.replicas=2; -> ''\<rparr>,
            Map.empty, [])
   \<and> processEvent exampleEnv 7 deleteWidget2 [''a/x widget'' \<mapsto> widget ''1'']
     \<noteq> Inr (fst (processEvent_diff exampleEnv 7 ''a/x widget'' (widget ''1'') emptyUnstructured),
            Map.empty,
            snd (processEvent_diff exampleEnv 7 ''a/x widget'' (widget ''1'') emptyUnstructured))
   \<and> processEvent exampleEnv 7 deleteWidget2 Map.empty
     = Inr (Some \<lparr>Timestamp = 7, Name = ''a/x widget'', Data = ''spec.replicas=2; -> ''\<rparr>,
            Map.empty, [])
   \<and> processEvent exampleEnv 7 deleteWidget2 Map.empty
     \<noteq> Inr (fst (processEvent_diff exampleEnv 7 ''a/x widget'' emptyUnstructured emptyUnstructured),
            Map.empty,
            snd (processEvent_diff exampleEnv 7 ''a/x widget'' emptyUnstructured emptyUnstructured))"
  by (simp add: processEvent_deleted deleteWidget2_def exampleEnv_sel getKey_widget
      diff_widget_empty)
    (simp add: processEvent_diff_def exampleEnv_sel)

text \<open>
  Claim C3, amended. An event whose type is none of added, modified, deleted and
  bookmark produces no event and leaves the cache unchanged, whatever object it carries.
  A bookmark event is not ignored: it is processed exactly as a modified event with the
  same object.
\<close>

theorem processEvent_unknown_type_ignored:
  "(Type event \<noteq> watch_Added \<and> Type event \<noteq> watch_Modified \<and> Type event \<noteq> watch_Deleted
      \<and> Type event \<noteq> watch_Bookmark
      \<longrightarrow> processEvent env now event cache = Inr (None, cache, []))
   \<and> processEvent env now (event\<lparr>Type := watch_Bookmark\<rparr>) cache
       = processEvent env now (event\<lparr>Type := watch_Modified\<rparr>) cache"
  by (simp add: processEvent_def Let_def watch_Deleted_def watch_Added_def
      watch_Modified_def watch_Bookmark_def split: runtime_Object.split)

theorem processEvent_unknown_type_ignored_witness:
  "Type \<lparr>Type = watch_Error, Object = OtherObject\<rparr> \<noteq> watch_Added
   \<and> Type \<lparr>Type = watch_Error, Object = OtherObject\<rparr> \<noteq> watch_Modified
   \<and> Type \<lparr>Type = watch_Error, Object = OtherObject\<rparr> \<noteq> watch_Deleted
   \<and> Type \<lparr>Type = watch_Error, Object = OtherObject\<rparr> \<noteq> watch_Bookmark
   \<and> processEvent exampleEnv 7 \<lparr>Type = watch_Error, Object = OtherObject\<rparr>
         [''a/x widget'' \<mapsto> widget ''1'']
       = Inr (None, [''a/x widget'' \<mapsto> widget ''1''], [])"
  using processEvent_unknown_type_ignored [of "\<lparr>Type = watch_Error, Object = OtherObject\<rparr>"
      exampleEnv 7 "[''a/x widget'' \<mapsto> widget ''1'']"]
  by (simp add: watch_Error_def watch_Deleted_def watch_Added_def
      watch_Modified_def watch_Bookmark_def)

text \<open>
  The claim as first stated fails for bookmarks: with an empty cache, a bookmark event
  produces an event and stores its object in the cache.
\<close>

theorem processEvent_bookmark_not_ignored:
  "processEvent exampleEnv 7 \<lparr>Type = watch_Bookmark, Object = Unstructured bookmark\<rparr> Map.empty
     = Inr (Some \<lparr>Timestamp = 7, Name = '' v1/widget'',
                  Data = '' -> metadata.resourceVersion=42;''\<rparr>,
            ['' v1/widget'' \<mapsto> bookmark], [])
   \<and> processEvent exampleEnv 7 \<lparr>Type = watch_Bookmark, Object = Unstructured bookmark\<rparr> Map.empty
     \<noteq> Inr (None, Map.empty, [])"
  by (simp add: processEvent_stored exampleEnv_sel getKey_bookmark bookmark_sel
      processEvent_diff_def showFields_def empty_sel)

text \<open>
  Claim C5. Let the diff library report no modification between a document and itself.
  When an add or modify event has been processed, processing the same event again, on
  the cache the first processing left, produces no event and leaves that cache
  unchanged: at most one event comes out of the two.
\<close>

theorem processEvent_same_object_twice:
  assumes refl: "\<And>x. \<not> diffModified env (compareObjects env x x)"
    and ty: "Type event = watch_Added \<or> Type event = watch_Modified"
    and first: "processEvent env now event cache = Inr (e, cache', logged)"
  shows "processEvent env now' event cache' = Inr (None, cache', [])"
proof (cases "Object event")
  case OtherObject
  with ty first show ?thesis
    by (auto simp: processEvent_def)
next
  case (Unstructured obj)
  show ?thesis
  proof (cases "namespaceFilter env (GetNamespace obj)")
    case False
    from ty have "Type event = watch_Added \<or> Type event = watch_Modified
        \<or> Type event = watch_Deleted \<or> Type event = watch_Bookmark"
      by blast
    from processEvent_filtered [OF this Unstructured False] first show ?thesis
      by simp
  next
    case True
    let ?key = "getKey (unicodeLower env) obj"
    from ty have ty': "Type event = watch_Added \<or> Type event = watch_Modified
        \<or> Type event = watch_Bookmark"
      by blast
    from first have c: "cache' = cache(?key \<mapsto> obj)"
      by (simp add: processEvent_stored [OF ty' Unstructured True])
    have "cache' ?key = Some obj" by (simp add: c)
    moreover have "cache'(?key \<mapsto> obj) = cache'" by (simp add: c)
    ultimately show ?thesis
      by (simp add: processEvent_stored [OF ty' Unstructured True] processEvent_diff_def refl)
  qed
qed

theorem processEvent_same_object_twice_witness:
  "(\<forall>x. \<not> diffModified exampleEnv (compareObjects exampleEnv x x))
   \<and> (Type addWidget1 = watch_Added \<or> Type addWidget1 = watch_Modified)
   \<and> processEvent exampleEnv 7 addWidget1 Map.empty
       = Inr (Some \<lparr>Timestamp = 7, Name = ''a/x widget'', Data = '' -> spec.replicas=1;''\<rparr>,
              [''a/x widget'' \<mapsto> widget ''1''], [])
   \<and> processEvent exampleEnv 8 addWidget1 [''a/x widget'' \<mapsto> widget ''1'']
       = Inr (None, [''a/x widget'' \<mapsto> widget ''1''], [])"
proof -
  have refl: "\<And>x. \<not> diffModified exampleEnv (compareObjects exampleEnv x x)"
    by (simp add: exampleEnv_sel)
  have ty: "Type addWidget1 = watch_Added \<or> Type addWidget1 = watch_Modified"
    by (simp add: addWidget1_def)
  have first: "processEvent exampleEnv 7 addWidget1 Map.empty
       = Inr (Some \<lparr>Timestamp = 7, Name = ''a/x widget'', Data = '' -> spec.replicas=1;''\<rparr>,
              [''a/x widget'' \<mapsto> widget ''1''], [])"
    by (simp add: processEvent_stored addWidget1_def exampleEnv_sel getKey_widget
        diff_empty_widget)
  from processEvent_same_object_twice [OF refl ty first, of 8] refl ty first
  show ?thesis by blast
qed

text \<open>
  Claim C9. For every add or modify event whose object passes the namespace filter, the
  cache after the call holds the incoming object under its key, whatever the diff
  yields: in particular when the diff reports no modification, and when the diff cannot
  be formatted, in which cases no event is produced.
\<close>

theorem processEvent_caches_before_diff:
  assumes ty: "Type event = watch_Added \<or> Type event = watch_Modified"
    and obj: "Object event = Unstructured obj"
    and ns: "namespaceFilter env (GetNamespace obj)"
    and key: "key = getKey (unicodeLower env) obj"
    and old: "old = (case cache key of None \<Rightarrow> emptyUnstructured | Some v \<Rightarrow> v)"
  shows "(\<exists>e logged. processEvent env now event cache = Inr (e, cache(key \<mapsto> obj), logged))
    \<and> (\<not> diffModified env (compareObjects env old obj)
         \<longrightarrow> processEvent env now event cache = Inr (None, cache(key \<mapsto> obj), []))
    \<and> (diffModified env (compareObjects env old obj)
         \<and> formatDiff env (colorize env) old (compareObjects env old obj) = Inl err
         \<longrightarrow> processEvent env now event cache
               = Inr (None, cache(key \<mapsto> obj), [''error formatting diff: '' @ err]))"
proof -
  from ty have ty': "Type event = watch_Added \<or> Type event = watch_Modified
      \<or> Type event = watch_Bookmark"
    by blast
  show ?thesis
    unfolding key old
    by (simp add: processEvent_stored [OF ty' obj ns] processEvent_diff_def)
qed

theorem processEvent_caches_before_diff_witness:
  "processEvent exampleEnv 8 addWidget1 [''a/x widget'' \<mapsto> widget ''1'']
     = Inr (None, [''a/x widget'' \<mapsto> widget ''1''], [])
   \<and> processEvent failingFormatEnv 8 addWidget1 [''a/x widget'' \<mapsto> widget ''2'']
     = Inr (None, [''a/x widget'' \<mapsto> widget ''1''], [''error formatting diff: cannot format''])"
proof -
  have ty: "Type addWidget1 = watch_Added \<or> Type addWidget1 = watch_Modified"
    and obj: "Object addWidget1 = Unstructured (widget ''1'')"
    by (simp_all add: addWidget1_def)
  have "processEvent exampleEnv 8 addWidget1 [''a/x widget'' \<mapsto> widget ''1'']
     = Inr (None, [''a/x widget'' \<mapsto> widget ''1''], [])"
    using processEvent_caches_before_diff [where event = addWidget1 and obj = "widget ''1''"
        and env = exampleEnv and key = "''a/x widget''" and old = "widget ''1''"
        and cache = "[''a/x widget'' \<mapsto> widget ''1'']" and now = 8, OF ty obj]
    by (simp add: exampleEnv_sel getKey_widget)
  moreover
  have "processEvent failingFormatEnv 8 addWidget1 [''a/x widget'' \<mapsto> widget ''2'']
     = Inr (None, [''a/x widget'' \<mapsto> widget ''1''], [''error formatting diff: cannot format''])"
    using processEvent_caches_before_diff [where event = addWidget1 and obj = "widget ''1''"
        and env = failingFormatEnv and key = "''a/x widget''" and old = "widget ''2''"
        and cache = "[''a/x widget'' \<mapsto> widget ''2'']" and now = 8
        and err = "''cannot format''"] ty obj
    by (simp add: failingFormatEnv_sel getKey_widget widget_sel)
  ultimately show ?thesis by simp
qed

section \<open>Properties of the watch loop\<close>

lemma poll_notFound:
  "PollImmediateUntil immediate (notFoundTick # ts) None = PollImmediateUntil False ts None"
  by (simp add: notFoundTick_def condition_def IsNotFound_def)

lemma poll_notFound_replicate:
  "PollImmediateUntil immediate (replicate (Suc n) notFoundTick @ ts) None
     = PollImmediateUntil False ts None"
  by (induction n arbitrary: immediate)
    (simp_all add: poll_notFound del: PollImmediateUntil.simps)

lemma poll_retries:
  "\<not> stopClosed t \<Longrightarrow>
   PollImmediateUntil True (replicate n notFoundTick @ t # ts) None
     = PollImmediateUntil True (t # ts) None"
proof (cases n)
  case 0
  then show ?thesis by simp
next
  case (Suc m)
  assume open': "\<not> stopClosed t"
  have "PollImmediateUntil True (replicate (Suc m) notFoundTick @ t # ts) None
          = PollImmediateUntil False (t # ts) None"
    by (rule poll_notFound_replicate)
  also from open' have "\<dots> = PollImmediateUntil True (t # ts) None"
    by simp
  finally show ?thesis using Suc by simp
qed

lemma poll_still_waiting: "PollImmediateUntil True (replicate n notFoundTick) None = None"
proof (cases n)
  case 0
  then show ?thesis by simp
next
  case (Suc m)
  then show ?thesis
    using poll_notFound_replicate [of True m "[]"] by simp
qed

text \<open>
  Claim C4. Attempts to open the watch stream that fail with "not found" are retried
  without bound and without logging: after any number \<open>n\<close> of them the loop is still
  running with its state unchanged, and it goes on as if the next attempt were the
  first. A failure with "method not supported" makes \<open>watchResource\<close> return with
  nothing logged. A failure with any other error makes it return with exactly one line
  logged, which names the resource and the error.
\<close>

theorem watchResource_open_failure:
  "watchResource env gvr (replicate n notFoundTick) st = Inr (Running, st)
   \<and> (\<not> stopClosed t \<longrightarrow>
        watchResource env gvr (replicate n notFoundTick @ t # ts) st
          = watchResource env gvr (t # ts) st)
   \<and> (\<not> stopClosed t \<and> watchReturns t = Inl MethodNotSupported \<longrightarrow>
        watchResource env gvr (replicate n notFoundTick @ t # ts) st = Inr (Returned, st))
   \<and> (\<not> stopClosed t \<and> watchReturns t = Inl err \<and> \<not> IsNotFound err
        \<and> \<not> IsMethodNotSupported (ConditionError err) \<longrightarrow>
        watchResource env gvr (replicate n notFoundTick @ t # ts) st
          = Inr (Returned, st\<lparr>ws_log := ws_log st @ [WatchError gvr (ConditionError err)]\<rparr>))"
proof -
  have waiting: "watchResource env gvr (replicate n notFoundTick) st = Inr (Running, st)"
    by (subst watchResource.simps) (simp add: poll_still_waiting)
  have retry: "watchResource env gvr (replicate n notFoundTick @ t # ts) st
       = watchResource env gvr (t # ts) st" if "\<not> stopClosed t"
    using that
    by (subst watchResource.simps, subst (2) watchResource.simps) (simp only: poll_retries)
  have unsupported:
    "watchResource env gvr (replicate n notFoundTick @ t # ts) st = Inr (Returned, st)"
    if "\<not> stopClosed t" "watchReturns t = Inl MethodNotSupported"
    using that
    by (subst watchResource.simps)
      (simp add: poll_retries condition_def IsNotFound_def IsMethodNotSupported_def)
  have other: "watchResource env gvr (replicate n notFoundTick @ t # ts) st
       = Inr (Returned, st\<lparr>ws_log := ws_log st @ [WatchError gvr (ConditionError err)]\<rparr>)"
    if "\<not> stopClosed t" "watchReturns t = Inl err" "\<not> IsNotFound err"
      "\<not> IsMethodNotSupported (ConditionError err)"
    using that
    by (subst watchResource.simps) (simp add: poll_retries condition_def)
  from waiting retry unsupported other show ?thesis by blast
qed

theorem watchResource_open_failure_witness:
  "watchResource exampleEnv ''apps/v1/widgets'' (replicate 3 notFoundTick) emptyState
     = Inr (Running, emptyState)
   \<and> watchResource exampleEnv ''apps/v1/widgets''
        (replicate 3 notFoundTick @ [unsupportedTick]) emptyState
     = Inr (Returned, emptyState)
   \<and> watchResource exampleEnv ''apps/v1/widgets''
        (replicate 3 notFoundTick @ [forbiddenTick]) emptyState
     = Inr (Returned, emptyState\<lparr>ws_log := ws_log emptyState @
         [WatchError ''apps/v1/widgets'' (ConditionError (OtherError ''forbidden''))]\<rparr>)"
proof -
  have u: "\<not> stopClosed unsupportedTick \<and> watchReturns unsupportedTick = Inl MethodNotSupported"
    by (simp add: unsupportedTick_def)
  have f: "\<not> stopClosed forbiddenTick \<and> watchReturns forbiddenTick = Inl (OtherError ''forbidden'')
      \<and> \<not> IsNotFound (OtherError ''forbidden'')
      \<and> \<not> IsMethodNotSupported (ConditionError (OtherError ''forbidden''))"
    by (simp add: forbiddenTick_def IsNotFound_def IsMethodNotSupported_def)
  from u f
    watchResource_open_failure [of exampleEnv "''apps/v1/widgets''" 3 emptyState
      unsupportedTick "[]" "OtherError ''forbidden''"]
    watchResource_open_failure [of exampleEnv "''apps/v1/widgets''" 3 emptyState
      forbiddenTick "[]" "OtherError ''forbidden''"]
  show ?thesis by blast
qed

section \<open>Properties of printing and shutdown\<close>

lemma flushEvents_eq:
  "flushEvents out format (f, stdout)
     = ([], receiverAfter format f out, stdout @ formatAll format f out)"
  by (induction out arbitrary: f stdout) (auto split: prod.splits)

lemma length_formatAll: "length (formatAll format f es) = length es"
  by (induction es arbitrary: f) (auto split: prod.splits)

lemma formatAll_append:
  "formatAll format f (xs @ ys)
     = formatAll format f xs @ formatAll format (receiverAfter format f xs) ys"
  by (induction xs arbitrary: f) (auto split: prod.splits)

lemma receiverAfter_append:
  "receiverAfter format f (xs @ ys) = receiverAfter format (receiverAfter format f xs) ys"
  by (induction xs arbitrary: f) (auto split: prod.splits)

lemma printEvents_eq:
  "printEvents k out format (f, stdout)
     = (drop k out, receiverAfter format f (take k out),
        stdout @ formatAll format f (take k out))"
proof (induction k out format "(f, stdout)" arbitrary: f stdout rule: printEvents.induct)
  case (1 k format f stdout)
  show ?case by simp
next
  case (2 e out format f stdout)
  show ?case by simp
next
  case (3 k e out format f stdout)
  then show ?case by (auto split: prod.splits)
qed

lemma print_then_flush:
  "flushEvents (drop k out) format
      (receiverAfter format f (take k out), stdout @ formatAll format f (take k out))
     = ([], receiverAfter format f out, stdout @ formatAll format f out)"
proof -
  have "formatAll format f (take k out @ drop k out)
      = formatAll format f (take k out)
        @ formatAll format (receiverAfter format f (take k out)) (drop k out)"
    by (rule formatAll_append)
  moreover have "receiverAfter format (receiverAfter format f (take k out)) (drop k out)
      = receiverAfter format f (take k out @ drop k out)"
    by (simp only: receiverAfter_append)
  ultimately show ?thesis
    by (simp add: flushEvents_eq)
qed


lemma DefaultFormatter_Format:
  "Format (DefaultFormatter lib) f e
     = (''['' @ time_Format lib (Timestamp e) @ ''] '' @ Name e @ newline @ Data e @ newline, f)"
  by (simp add: DefaultFormatter_def)

text \<open>
  Claim C6, amended. Let the channel buffer the events \<open>buffered\<close> when cancellation is
  raised, with no sender afterwards. Whatever number of them \<open>printEvents\<close> still
  receives before its select takes the stop case, \<open>printEvents\<close> followed by the drain
  pass prints exactly these events, in order, each once, and the drain pass returns with
  the channel empty; the drain pass itself prints exactly the events still buffered when
  it starts. In \<open>main\<close> the epilogue follows.
\<close>

theorem drain_prints_buffered:
  "printEvents k buffered format (f, stdout) = (out1, f1, stdout1) \<and>
   flushEvents out1 format (f1, stdout1) = (out2, f2, stdout2)
   \<longrightarrow> out2 = []
     \<and> stdout2 = stdout @ formatAll format f buffered
     \<and> length stdout2 = length stdout + length buffered
     \<and> length stdout2 = length stdout1 + length out1
     \<and> length out1 = length buffered - k"
proof (intro impI, elim conjE)
  assume p: "printEvents k buffered format (f, stdout) = (out1, f1, stdout1)"
    and d: "flushEvents out1 format (f1, stdout1) = (out2, f2, stdout2)"
  from p have out1: "out1 = drop k buffered"
    and f1: "f1 = receiverAfter format f (take k buffered)"
    and stdout1: "stdout1 = stdout @ formatAll format f (take k buffered)"
    by (simp_all add: printEvents_eq)
  from d have out2: "out2 = []" and stdout2: "stdout2 = stdout1 @ formatAll format f1 out1"
    by (simp_all add: flushEvents_eq)
  from d have final: "stdout2 = stdout @ formatAll format f buffered"
    unfolding out1 f1 stdout1 by (simp add: print_then_flush)
  from final have len: "length stdout2 = length stdout + length buffered"
    by (simp add: length_formatAll)
  from stdout2 have drained: "length stdout2 = length stdout1 + length out1"
    by (simp add: length_formatAll)
  from out1 have left: "length out1 = length buffered - k"
    by simp
  from out2 final len drained left show "out2 = []
     \<and> stdout2 = stdout @ formatAll format f buffered
     \<and> length stdout2 = length stdout + length buffered
     \<and> length stdout2 = length stdout1 + length out1
     \<and> length out1 = length buffered - k"
    by blast
qed

theorem drain_prints_buffered_witness:
  "printEvents 1 [event1, event2] (Format (DefaultFormatter exampleLib)) ((), [])
     = ([event2], (), [''[2019-11-01 00:00:00.000] a/x widget'' @ newline @ ''one'' @ newline])
   \<and> flushEvents [event2] (Format (DefaultFormatter exampleLib))
        ((), [''[2019-11-01 00:00:00.000] a/x widget'' @ newline @ ''one'' @ newline])
     = ([], (), [''[2019-11-01 00:00:00.000] a/x widget'' @ newline @ ''one'' @ newline,
                 ''[2019-11-01 00:00:00.000] a/x widget'' @ newline @ ''two'' @ newline])"
  using drain_prints_buffered [of 1 "[event1, event2]" "Format (DefaultFormatter exampleLib)"
      "()" "[]" "[event2]" "()"
      "[''[2019-11-01 00:00:00.000] a/x widget'' @ newline @ ''one'' @ newline]"
      "[]" "()"
      "[''[2019-11-01 00:00:00.000] a/x widget'' @ newline @ ''one'' @ newline,
        ''[2019-11-01 00:00:00.000] a/x widget'' @ newline @ ''two'' @ newline]"]
  by (simp add: DefaultFormatter_Format exampleLib_def event1_def event2_def)

text \<open>
  The claim as first stated fails: with two events buffered when cancellation is raised,
  \<open>printEvents\<close> may still receive and print the first before it takes the stop case;
  the drain pass then prints one event, not two.
\<close>

theorem drain_prints_fewer_than_buffered:
  "printEvents 1 [event1, event2] (Format (DefaultFormatter exampleLib)) ((), [])
     = ([event2], (), [''[2019-11-01 00:00:00.000] a/x widget'' @ newline @ ''one'' @ newline])
   \<and> flushEvents [event2] (Format (DefaultFormatter exampleLib))
        ((), [''[2019-11-01 00:00:00.000] a/x widget'' @ newline @ ''one'' @ newline])
     = ([], (), [''[2019-11-01 00:00:00.000] a/x widget'' @ newline @ ''one'' @ newline,
                 ''[2019-11-01 00:00:00.000] a/x widget'' @ newline @ ''two'' @ newline])
   \<and> length [''[2019-11-01 00:00:00.000] a/x widget'' @ newline @ ''one'' @ newline,
              ''[2019-11-01 00:00:00.000] a/x widget'' @ newline @ ''two'' @ newline]
       - length [''[2019-11-01 00:00:00.000] a/x widget'' @ newline @ ''one'' @ newline]
     \<noteq> length [event1, event2]"
  by (simp add: DefaultFormatter_Format exampleLib_def event1_def event2_def)

subsection \<open>The trace format\<close>




























end
